theory Spec2Isabelle
  imports Main "HOL-Library.Char_ord" "HOL-Library.List_Lexorder" "HOL-Library.Word"
begin

unbundle bit_operations_syntax

section \<open>Python values, exceptions and string operations used by zfs\_fuse\_snapshot.py\<close>

text \<open>
  Python \<open>str\<close> values are modelled as \<open>string\<close>; the comparison \<open>a < b\<close> of two
  \<open>str\<close> values is the lexicographic order on character codes, which is the order
  on \<open>char list\<close> provided by the library instances for \<open>char\<close> and \<open>list\<close>.
  An exception that propagates out of a function is the \<open>Inl\<close> branch of a sum.
\<close>

datatype error =
    RuntimeError string
  | ValueError
  | TypeError
  | IndexError
  | KeyError int
  | StopIteration

text \<open>
  The values bound to \<open>from_snap\<close>: \<open>None\<close>, a \<open>str\<close>, or an exception
  \<^emph>\<open>object\<close> (line 42 builds a \<open>RuntimeError\<close> and returns it).
\<close>

datatype pyval = PNone | PStr string | PExc error

text \<open>Truth value of an object in \<open>if from_snap:\<close> and \<open>not closest_ctime\<close>.\<close>

fun truthy :: "pyval \<Rightarrow> bool" where
  "truthy PNone = False"
| "truthy (PStr s) = (s \<noteq> [])"
| "truthy (PExc e) = True"

text \<open>\<open>str.isspace\<close> restricted to code points below 256.\<close>

definition isspace :: "char \<Rightarrow> bool" where
  "isspace c = (of_char c \<in> set [9, 10, 11, 12, 13, 28, 29, 30, 31, 32, 133, 160 :: nat])"

text \<open>\<open>s.strip()\<close>, \<open>s.lstrip(chars)\<close>, \<open>s.rstrip(chars)\<close>, \<open>s.startswith(p)\<close>.\<close>

definition strip :: "string \<Rightarrow> string" where
  "strip s = rev (dropWhile isspace (rev (dropWhile isspace s)))"

definition lstrip :: "string \<Rightarrow> string \<Rightarrow> string" where
  "lstrip s chars = dropWhile (\<lambda>c. c \<in> set chars) s"

definition rstrip :: "string \<Rightarrow> string \<Rightarrow> string" where
  "rstrip s chars = rev (dropWhile (\<lambda>c. c \<in> set chars) (rev s))"

definition startswith :: "string \<Rightarrow> string \<Rightarrow> bool" where
  "startswith s p = (take (length p) s = p)"

text \<open>\<open>s.split(sep)\<close> for a one-character separator: never an empty list.\<close>

fun split :: "string \<Rightarrow> char \<Rightarrow> string list" where
  "split [] sep = [[]]"
| "split (c # cs) sep =
     (if c = sep then [] # split cs sep
      else (case split cs sep of [] \<Rightarrow> [[c]] | w # ws \<Rightarrow> (c # w) # ws))"

abbreviation TAB :: char where "TAB \<equiv> CHR 0x09"
abbreviation NL :: char where "NL \<equiv> CHR 0x0A"

section \<open>The host: subprocesses, the dataset catalog, number parsing\<close>

record proc_result =
  returncode :: int
  stdout :: string
  stderr :: string

text \<open>An entry of \<open>simplezfs\<close>'s \<open>list_datasets\<close>, with the two fields the code reads.\<close>

record dataset =
  full_path :: string
  parent :: string

type_synonym byte = "8 word"

text \<open>
  Everything outside the file: \<open>run\<close> is \<open>subprocess.run\<close> on an argument vector of
  strings, \<open>popen\<close> gives the bytes a spawned process will write to its standard
  output, \<open>list_datasets\<close> is the catalog, \<open>py_int\<close> and \<open>py_float\<close> are the
  builtins \<open>int\<close> and \<open>float\<close> on a \<open>str\<close> (\<open>None\<close> where they raise \<open>ValueError\<close>).
\<close>

record 'f host =
  run :: "string list \<Rightarrow> proc_result"
  popen :: "string list \<Rightarrow> byte list"
  list_datasets :: "string \<Rightarrow> dataset list"
  py_int :: "string \<Rightarrow> int option"
  py_float :: "string \<Rightarrow> 'f option"

text \<open>
  An argument vector handed to \<open>subprocess\<close> must consist of strings; any other
  object makes \<open>subprocess\<close> raise \<open>TypeError\<close> before a process is started.
\<close>

fun argv :: "pyval list \<Rightarrow> error + string list" where
  "argv [] = Inr []"
| "argv (PStr s # as) = (case argv as of Inl e \<Rightarrow> Inl e | Inr ss \<Rightarrow> Inr (s # ss))"
| "argv (a # as) = Inl TypeError"

section \<open>SnapshotCatalog\<close>

text \<open>
  \<open>zfs_call\<close> (lines 17-22). The generator raises before its first \<open>yield\<close> or not
  at all, so its value is either the exception or the list of all lines.
\<close>

definition zfs_call :: "'f host \<Rightarrow> string list \<Rightarrow> error + string list" where
  "zfs_call h args =
     (let proc = run h args in
      if returncode proc \<noteq> 0 \<or> length (stderr proc) > 0
      then Inl (RuntimeError (stderr proc))
      else Inr (split (strip (stdout proc)) NL))"

text \<open>
  The first loop of \<open>find_closest_snapshot\<close> (lines 31-38). The state is
  \<open>(snap_names, ctimes, snap_ctime)\<close>; \<open>name, ctime = line.split('\t')\<close> raises
  \<open>ValueError\<close> unless the line has exactly two fields.
\<close>

fun scan_lines ::
  "string \<Rightarrow> string \<Rightarrow> string list \<Rightarrow> string list \<times> string list \<times> string option
     \<Rightarrow> error + (string list \<times> string list \<times> string option)" where
  "scan_lines snapshot dataset [] acc = Inr acc"
| "scan_lines snapshot dataset (line # lines) (snap_names, ctimes, snap_ctime) =
     (case split line TAB of
        [name, ctime] \<Rightarrow>
          if startswith name dataset then
            if name = snapshot
            then scan_lines snapshot dataset lines (snap_names, ctimes, Some ctime)
            else scan_lines snapshot dataset lines (snap_names @ [name], ctimes @ [ctime], snap_ctime)
          else scan_lines snapshot dataset lines (snap_names, ctimes, snap_ctime)
      | _ \<Rightarrow> Inl ValueError)"

text \<open>
  The second loop (lines 45-49) over \<open>zip(snap_names, ctimes)\<close>, with state
  \<open>(closest_snap, closest_ctime)\<close>. \<open>not closest_ctime\<close> holds for \<open>None\<close> and
  for the empty string.
\<close>

fun pick_closest ::
  "string \<Rightarrow> (string \<times> string) list \<Rightarrow> string option \<times> string option
     \<Rightarrow> string option \<times> string option" where
  "pick_closest snap_ctime [] acc = acc"
| "pick_closest snap_ctime ((snap, ctime) # rest) (closest_snap, closest_ctime) =
     (if ctime < snap_ctime \<and>
         (case closest_ctime of None \<Rightarrow> True | Some cc \<Rightarrow> cc = [] \<or> ctime > cc)
      then pick_closest snap_ctime rest (Some snap, Some ctime)
      else pick_closest snap_ctime rest (closest_snap, closest_ctime))"

text \<open>\<open>snapshot.split('@')[0]\<close> (line 27): the part before the first \<open>@\<close>.\<close>

definition dataset_of :: "string \<Rightarrow> string" where
  "dataset_of snapshot = (case split snapshot (CHR ''@'') of [] \<Rightarrow> [] | d # _ \<Rightarrow> d)"

definition find_closest_snapshot :: "'f host \<Rightarrow> string \<Rightarrow> error + pyval" where
  "find_closest_snapshot h snapshot =
     (let args = [''zfs'', ''list'', ''-H'', ''-p'', ''-o'', ''name,creation'', ''-t'', ''snapshot''];
          dataset = dataset_of snapshot
      in case zfs_call h args of
           Inl e \<Rightarrow> Inl e
         | Inr lines \<Rightarrow>
             (case scan_lines snapshot dataset lines ([], [], None) of
                Inl e \<Rightarrow> Inl e
              | Inr (snap_names, ctimes, snap_ctime) \<Rightarrow>
                  (case snap_ctime of
                     None \<Rightarrow> Inr (PExc (RuntimeError (''snapshot '' @ snapshot @ '' not found'')))
                   | Some sc \<Rightarrow>
                       (case fst (pick_closest sc (zip snap_names ctimes) (None, None)) of
                          None \<Rightarrow> Inr PNone
                        | Some s \<Rightarrow> Inr (PStr s)))))"

section \<open>SizeEstimator\<close>

text \<open>
  \<open>get_size\<close> (lines 55-62): \<open>lines[1]\<close> and \<open>split('\t')[1]\<close> raise
  \<open>IndexError\<close> out of range, \<open>int\<close> raises \<open>ValueError\<close>.
\<close>

definition get_size :: "'f host \<Rightarrow> string \<Rightarrow> error + int" where
  "get_size h zpath =
     (case find_closest_snapshot h zpath of
        Inl e \<Rightarrow> Inl e
      | Inr from_snap \<Rightarrow>
          (let args =
             (if truthy from_snap
              then [PStr ''zfs'', PStr ''send'', PStr ''-n'', PStr ''-v'', PStr ''-P'', PStr ''-i'',
                    from_snap, PStr zpath]
              else [PStr ''zfs'', PStr ''send'', PStr ''-n'', PStr ''-v'', PStr ''-P'', PStr zpath])
           in case argv args of
                Inl e \<Rightarrow> Inl e
              | Inr a \<Rightarrow>
                  (case zfs_call h a of
                     Inl e \<Rightarrow> Inl e
                   | Inr lines \<Rightarrow>
                       if length lines < 2 then Inl IndexError
                       else (let fields = split (lines ! 1) TAB
                             in if length fields < 2 then Inl IndexError
                                else (case py_int h (fields ! 1) of
                                        None \<Rightarrow> Inl ValueError
                                      | Some n \<Rightarrow> Inr n)))))"

section \<open>StreamSession: class SendBuffer\<close>

text \<open>
  The spawned process, seen from the reader: the bytes of its standard output that
  have not been read yet, and whether \<open>terminate\<close> was called. The pipe is a
  buffered reader of a blocking pipe, so \<open>stdout.read(n)\<close> returns \<open>n\<close> bytes, or all
  the remaining ones when fewer are left before end-of-stream.
\<close>

record process =
  out_pipe :: "byte list"
  terminated :: bool

definition pipe_read :: "process \<Rightarrow> nat \<Rightarrow> byte list \<times> process" where
  "pipe_read p n = (take n (out_pipe p), p\<lparr>out_pipe := drop n (out_pipe p)\<rparr>)"

record SendBuffer =
  pointer :: nat
  from_snap :: pyval
  send_proc :: process

text \<open>\<open>SendBuffer.__init__\<close> (lines 66-74).\<close>

definition SendBuffer_init :: "'f host \<Rightarrow> string \<Rightarrow> error + SendBuffer" where
  "SendBuffer_init h zpath =
     (case find_closest_snapshot h zpath of
        Inl e \<Rightarrow> Inl e
      | Inr base \<Rightarrow>
          (let cmd =
             (if truthy base
              then [PStr ''zfs'', PStr ''send'', PStr ''-v'', PStr ''-P'', PStr ''-i'', base, PStr zpath]
              else [PStr ''zfs'', PStr ''send'', PStr ''-v'', PStr ''-P'', PStr zpath])
           in case argv cmd of
                Inl e \<Rightarrow> Inl e
              | Inr a \<Rightarrow>
                  Inr \<lparr>pointer = 0, from_snap = base,
                       send_proc = \<lparr>out_pipe = popen h a, terminated = False\<rparr>\<rparr>))"

text \<open>
  \<open>SendBuffer.read\<close> (lines 76-87), in its two steps: the forward seek of lines
  80-83, which returns the bytes it drops, and the read proper of lines 84-87.
  \<open>length\<close> and \<open>offset\<close> are the \<open>size_t\<close> and \<open>off_t\<close> of the filesystem
  request, hence natural numbers.
\<close>

definition seek_forward :: "SendBuffer \<Rightarrow> nat \<Rightarrow> byte list \<times> SendBuffer" where
  "seek_forward sb offset =
     (if offset > pointer sb
      then (let (dropped, p) = pipe_read (send_proc sb) (offset - pointer sb)
            in (dropped, sb\<lparr>send_proc := p, pointer := offset\<rparr>))
      else ([], sb))"

definition SendBuffer_read :: "SendBuffer \<Rightarrow> nat \<Rightarrow> nat \<Rightarrow> byte list \<times> SendBuffer" where
  "SendBuffer_read sb len offset =
     (let (dropped, sb1) = seek_forward sb offset;
          (data, p) = pipe_read (send_proc sb1) len
      in (data, sb1\<lparr>send_proc := p, pointer := pointer sb1 + length data\<rparr>))"

definition SendBuffer_close :: "SendBuffer \<Rightarrow> SendBuffer" where
  "SendBuffer_close sb = sb\<lparr>send_proc := (send_proc sb)\<lparr>terminated := True\<rparr>\<rparr>"

section \<open>VirtualFilesystem: class FuseSnapshot\<close>

record FuseSnapshot =
  zpool :: string
  open_buffers :: "int \<rightharpoonup> SendBuffer"
  max_buffer_id :: int

definition FuseSnapshot_init :: "string \<Rightarrow> FuseSnapshot" where
  "FuseSnapshot_init zp = \<lparr>zpool = zp, open_buffers = Map.empty, max_buffer_id = 0\<rparr>"

definition path2zpath :: "FuseSnapshot \<Rightarrow> string \<Rightarrow> string" where
  "path2zpath fs path = zpool fs @ rstrip path ''/''"

subsection \<open>getattr\<close>

text \<open>The constants of Python's \<open>stat\<close> module and its file-type tests.\<close>

definition S_IFREG :: int where "S_IFREG = 32768"
definition S_IFDIR :: int where "S_IFDIR = 16384"
definition S_IFMT :: int where "S_IFMT = 61440"
definition S_IRUSR :: int where "S_IRUSR = 256"
definition S_IXUSR :: int where "S_IXUSR = 64"

definition S_ISREG :: "int \<Rightarrow> bool" where "S_ISREG m = (m AND S_IFMT = S_IFREG)"
definition S_ISDIR :: "int \<Rightarrow> bool" where "S_ISDIR m = (m AND S_IFMT = S_IFDIR)"

record 'f stat_result =
  st_atime :: 'f
  st_ctime :: 'f
  st_gid :: int
  st_mode :: int
  st_mtime :: 'f
  st_nlink :: int
  st_size :: int
  st_uid :: int

text \<open>
  \<open>FuseSnapshot.getattr\<close> (lines 110-133). \<open>next\<close> takes the first line of the
  listing; the unpacking of line 113 needs exactly three fields.
\<close>

definition FuseSnapshot_getattr :: "'f host \<Rightarrow> FuseSnapshot \<Rightarrow> string \<Rightarrow> error + 'f stat_result" where
  "FuseSnapshot_getattr h fs path =
     (let zpath = path2zpath fs path in
      case zfs_call h [''zfs'', ''list'', ''-H'', ''-p'', ''-o'', ''name,type,creation'', zpath] of
        Inl e \<Rightarrow> Inl e
      | Inr [] \<Rightarrow> Inl StopIteration
      | Inr (line # _) \<Rightarrow>
          (case split line TAB of
             [name, ztype, ctime_s] \<Rightarrow>
               (case py_float h ctime_s of
                  None \<Rightarrow> Inl ValueError
                | Some ctime \<Rightarrow>
                    (let inode_type = (if ztype = ''snapshot'' then S_IFREG else S_IFDIR)
                     in case (if ztype = ''snapshot'' then get_size h zpath else Inr 0) of
                          Inl e \<Rightarrow> Inl e
                        | Inr sz \<Rightarrow>
                            Inr \<lparr>st_atime = ctime, st_ctime = ctime, st_gid = 0,
                                 st_mode = inode_type OR S_IRUSR OR S_IXUSR,
                                 st_mtime = ctime, st_nlink = 1,
                                 st_size = sz * 2, st_uid = 0\<rparr>))
           | _ \<Rightarrow> Inl ValueError))"

subsection \<open>readdir\<close>

text \<open>\<open>FuseSnapshot.readdir\<close> (lines 135-141): the entries the generator yields, in order.\<close>

definition FuseSnapshot_readdir :: "'f host \<Rightarrow> FuseSnapshot \<Rightarrow> string \<Rightarrow> string list" where
  "FuseSnapshot_readdir h fs path =
     (let zpath = path2zpath fs path in
      ''.'' # ''..'' #
        map (\<lambda>d. lstrip (full_path d) (zpool fs @ ''/''))
            (filter (\<lambda>d. parent d = zpath) (list_datasets h zpath)))"

subsection \<open>statfs\<close>

datatype statval = SInt int | SStr string | SMethod string

definition stv :: "(string \<times> statval) list" where
  "stv = [(''f_bsize'', SInt 4096), (''f_blocks'', SInt (2 ^ 16)), (''f_bfree'', SInt 0),
          (''f_ffree'', SInt 0), (''f_bavail'', SInt 0), (''f_namelen'', SInt 1024),
          (''f_flag'', SStr [])]"

text \<open>
  The builtin \<open>getattr(obj, name, default)\<close> for \<open>obj\<close> a \<open>dict\<close>: attribute lookup
  does not consult the entries of the dictionary; it finds the attributes of the
  \<open>dict\<close> type (its methods), and gives \<open>default\<close> for every other name.
\<close>

definition dict_attributes :: "string list" where
  "dict_attributes =
     [''__class__'', ''__class_getitem__'', ''__contains__'', ''__delattr__'', ''__delitem__'',
      ''__dir__'', ''__doc__'', ''__eq__'', ''__format__'', ''__ge__'', ''__getattribute__'',
      ''__getitem__'', ''__getstate__'', ''__gt__'', ''__hash__'', ''__init__'',
      ''__init_subclass__'', ''__ior__'', ''__iter__'', ''__le__'', ''__len__'', ''__lt__'',
      ''__ne__'', ''__new__'', ''__or__'', ''__reduce__'', ''__reduce_ex__'', ''__repr__'',
      ''__reversed__'', ''__ror__'', ''__setattr__'', ''__setitem__'', ''__sizeof__'',
      ''__str__'', ''__subclasshook__'', ''clear'', ''copy'', ''fromkeys'', ''get'', ''items'',
      ''keys'', ''pop'', ''popitem'', ''setdefault'', ''update'', ''values'']"

definition getattr_dict :: "(string \<times> statval) list \<Rightarrow> string \<Rightarrow> statval \<Rightarrow> statval" where
  "getattr_dict d name dflt = (if name \<in> set dict_attributes then SMethod name else dflt)"

text \<open>\<open>FuseSnapshot.statfs\<close> (lines 143-155): the dictionary returned, as its items in order.\<close>

definition FuseSnapshot_statfs :: "FuseSnapshot \<Rightarrow> string \<Rightarrow> (string \<times> statval) list" where
  "FuseSnapshot_statfs fs path =
     map (\<lambda>key. (key, getattr_dict stv key (SInt 0)))
       [''f_bavail'', ''f_bfree'', ''f_blocks'', ''f_bsize'', ''f_favail'', ''f_ffree'',
        ''f_files'', ''f_flag'', ''f_frsize'', ''f_namemax'']"

subsection \<open>open, read, release\<close>

text \<open>
  Each method returns what the call gives its caller (a value or the exception) and
  the object as the call leaves it. \<open>open\<close> (lines 161-167) stores the new counter
  before it constructs the \<open>SendBuffer\<close>, so a failed construction leaves the counter
  advanced and the table untouched.
\<close>

definition FuseSnapshot_open ::
  "'f host \<Rightarrow> FuseSnapshot \<Rightarrow> string \<Rightarrow> int \<Rightarrow> (error + int) \<times> FuseSnapshot" where
  "FuseSnapshot_open h fs path flags =
     (let zpath = path2zpath fs path;
          buffer_id = max_buffer_id fs + 1;
          fs1 = fs\<lparr>max_buffer_id := buffer_id\<rparr>
      in case SendBuffer_init h zpath of
           Inl e \<Rightarrow> (Inl e, fs1)
         | Inr sb \<Rightarrow> (Inr buffer_id, fs1\<lparr>open_buffers := (open_buffers fs1)(buffer_id \<mapsto> sb)\<rparr>))"

definition FuseSnapshot_read ::
  "FuseSnapshot \<Rightarrow> string \<Rightarrow> nat \<Rightarrow> nat \<Rightarrow> int \<Rightarrow> (error + byte list) \<times> FuseSnapshot" where
  "FuseSnapshot_read fs path len offset fh =
     (case open_buffers fs fh of
        None \<Rightarrow> (Inl (KeyError fh), fs)
      | Some sb \<Rightarrow>
          (let (data, sb') = SendBuffer_read sb len offset
           in (Inr data, fs\<lparr>open_buffers := (open_buffers fs)(fh \<mapsto> sb')\<rparr>)))"

definition FuseSnapshot_release ::
  "FuseSnapshot \<Rightarrow> string \<Rightarrow> int \<Rightarrow> (error + unit) \<times> FuseSnapshot" where
  "FuseSnapshot_release fs path fh =
     (case open_buffers fs fh of
        None \<Rightarrow> (Inl (KeyError fh), fs)
      | Some sb \<Rightarrow>
          (let fs1 = fs\<lparr>open_buffers := (open_buffers fs)(fh \<mapsto> SendBuffer_close sb)\<rparr>
           in (Inr (), fs1\<lparr>open_buffers := (open_buffers fs1)(fh := None)\<rparr>)))"

section \<open>Call sequences\<close>

text \<open>The sessions a \<open>SendBuffer\<close> goes through under successive \<open>read(length, offset)\<close> calls.\<close>

fun read_seq :: "SendBuffer \<Rightarrow> (nat \<times> nat) list \<Rightarrow> SendBuffer list" where
  "read_seq sb [] = [sb]"
| "read_seq sb ((len, offset) # calls) =
     sb # read_seq (snd (SendBuffer_read sb len offset)) calls"

text \<open>
  The calls that the mounted filesystem receives and that touch its state. \<open>serve\<close>
  runs them in order on one \<open>FuseSnapshot\<close> object and collects the handles that the
  successful \<open>open\<close> calls returned, oldest first. An exception ends the call that
  raised it, not the mount.
\<close>

datatype call = Open string int | Read string nat nat int | Release string int

fun step :: "'f host \<Rightarrow> FuseSnapshot \<Rightarrow> call \<Rightarrow> int list \<times> FuseSnapshot" where
  "step h fs (Open path flags) =
     (case FuseSnapshot_open h fs path flags of
        (Inr b, fs') \<Rightarrow> ([b], fs')
      | (Inl e, fs') \<Rightarrow> ([], fs'))"
| "step h fs (Read path len offset fh) = ([], snd (FuseSnapshot_read fs path len offset fh))"
| "step h fs (Release path fh) = ([], snd (FuseSnapshot_release fs path fh))"

fun serve :: "'f host \<Rightarrow> FuseSnapshot \<Rightarrow> call list \<Rightarrow> int list \<times> FuseSnapshot" where
  "serve h fs [] = ([], fs)"
| "serve h fs (c # cs) =
     (let (hs, fs1) = step h fs c;
          (hs', fs2) = serve h fs1 cs
      in (hs @ hs', fs2))"

section \<open>Notions of the specification\<close>

text \<open>
  A snapshot \<open>name\<close> belongs to the dataset of \<open>snapshot\<close> when the parts before
  \<open>@\<close> are the same.
\<close>

definition same_dataset :: "string \<Rightarrow> string \<Rightarrow> bool" where
  "same_dataset name snapshot = (dataset_of name = dataset_of snapshot)"

text \<open>
  The name of a child relative to the filesystem root: its full path without the
  leading \<open>root/\<close>.
\<close>

definition relative_name :: "string \<Rightarrow> string \<Rightarrow> string" where
  "relative_name root p = (if startswith p (root @ ''/'') then drop (length root + 1) p else p)"

text \<open>
  The state \<open>(closest_snap, closest_ctime)\<close> names the closest earlier candidate of
  \<open>seen\<close>: a pair of \<open>seen\<close> created before \<open>sc\<close> such that no pair of
  \<open>seen\<close> created before \<open>sc\<close> is later; or nothing, when no pair of \<open>seen\<close> was
  created before \<open>sc\<close>.
\<close>

fun closest_in :: "string \<Rightarrow> (string \<times> string) list \<Rightarrow> string option \<times> string option \<Rightarrow> bool" where
  "closest_in sc seen (None, None) = (\<forall>(n, c) \<in> set seen. \<not> c < sc)"
| "closest_in sc seen (Some s, Some c) =
     ((s, c) \<in> set seen \<and> c < sc \<and> (\<forall>(n, c') \<in> set seen. c' < sc \<longrightarrow> c' \<le> c))"
| "closest_in sc seen other = False"

section \<open>Example hosts\<close>

text \<open>
  Plain decimal numerals, standing for \<open>int\<close> and \<open>float\<close> in the example hosts
  (both builtins accept such a numeral and give its value).
\<close>

definition is_digit :: "char \<Rightarrow> bool" where
  "is_digit c = (CHR ''0'' \<le> c \<and> c \<le> CHR ''9'')"

definition decimal :: "string \<Rightarrow> int option" where
  "decimal s =
     (if s \<noteq> [] \<and> list_all is_digit s
      then Some (foldl (\<lambda>a c. 10 * a + (int (of_char c) - 48)) 0 s)
      else None)"

definition list_snapshots_args :: "string list" where
  "list_snapshots_args = [''zfs'', ''list'', ''-H'', ''-p'', ''-o'', ''name,creation'', ''-t'', ''snapshot'']"

definition failed :: proc_result where
  "failed = \<lparr>returncode = 1, stdout = [], stderr = ''cannot open: dataset does not exist''\<rparr>"

text \<open>A stream of 3000 bytes.\<close>

definition long_stream :: "byte list" where
  "long_stream = map of_nat [0..<3000]"

text \<open>
  A pool \<open>tank\<close> with the dataset \<open>tank/a\<close> and its snapshots \<open>s1\<close> (created at 100)
  and \<open>s2\<close> (created at 200); the incremental stream from \<open>s1\<close> to \<open>s2\<close> has
  3000 bytes and is estimated at 1024.
\<close>

definition tank_host :: "int host" where
  "tank_host =
     \<lparr>run = (\<lambda>args.
         if args = list_snapshots_args
         then \<lparr>returncode = 0,
               stdout = ''tank/a@s1'' @ [TAB] @ ''100'' @ [NL] @ ''tank/a@s2'' @ [TAB] @ ''200'' @ [NL],
               stderr = []\<rparr>
         else if args = [''zfs'', ''list'', ''-H'', ''-p'', ''-o'', ''name,type,creation'', ''tank/a@s2'']
         then \<lparr>returncode = 0,
               stdout = ''tank/a@s2'' @ [TAB] @ ''snapshot'' @ [TAB] @ ''200'' @ [NL],
               stderr = []\<rparr>
         else if args = [''zfs'', ''list'', ''-H'', ''-p'', ''-o'', ''name,type,creation'', ''tank/a'']
         then \<lparr>returncode = 0,
               stdout = ''tank/a'' @ [TAB] @ ''filesystem'' @ [TAB] @ ''50'' @ [NL],
               stderr = []\<rparr>
         else if args = [''zfs'', ''send'', ''-n'', ''-v'', ''-P'', ''-i'', ''tank/a@s1'', ''tank/a@s2'']
         then \<lparr>returncode = 0,
               stdout = ''incremental'' @ [TAB] @ ''tank/a@s1'' @ [TAB] @ ''tank/a@s2'' @ [TAB] @ ''1024''
                        @ [NL] @ ''size'' @ [TAB] @ ''1024'' @ [NL],
               stderr = []\<rparr>
         else failed),
      popen = (\<lambda>args.
         if args = [''zfs'', ''send'', ''-v'', ''-P'', ''-i'', ''tank/a@s1'', ''tank/a@s2'']
         then long_stream else []),
      list_datasets = (\<lambda>p. []),
      py_int = decimal,
      py_float = decimal\<rparr>"

text \<open>
  The same pool with a second dataset \<open>tank/ab\<close>, whose name begins with \<open>tank/a\<close>,
  carrying a snapshot created at 150, and with a child \<open>tank/apple\<close> in the catalog.
\<close>

definition tank_ab_host :: "int host" where
  "tank_ab_host =
     \<lparr>run = (\<lambda>args.
         if args = list_snapshots_args
         then \<lparr>returncode = 0,
               stdout = ''tank/a@s1'' @ [TAB] @ ''100'' @ [NL] @ ''tank/ab@s1'' @ [TAB] @ ''150'' @ [NL]
                        @ ''tank/a@s2'' @ [TAB] @ ''200'' @ [NL],
               stderr = []\<rparr>
         else failed),
      popen = (\<lambda>args. []),
      list_datasets = (\<lambda>p.
         if p = ''tank''
         then [\<lparr>full_path = ''tank/a'', parent = ''tank''\<rparr>,
               \<lparr>full_path = ''tank/apple'', parent = ''tank''\<rparr>,
               \<lparr>full_path = ''tank/a@s1'', parent = ''tank/a''\<rparr>]
         else []),
      py_int = decimal,
      py_float = decimal\<rparr>"

text \<open>A session that has read nothing yet of a three-byte stream.\<close>

definition short_session :: SendBuffer where
  "short_session =
     \<lparr>pointer = 0, from_snap = PNone, send_proc = \<lparr>out_pipe = [1, 2, 3], terminated = False\<rparr>\<rparr>"

text \<open>A session that has read nothing yet of a stream of 3000 bytes.\<close>

definition long_session :: SendBuffer where
  "long_session =
     \<lparr>pointer = 0, from_snap = PStr ''tank/a@s1'',
      send_proc = \<lparr>out_pipe = long_stream, terminated = False\<rparr>\<rparr>"

section \<open>Properties\<close>

subsection \<open>The read pointer\<close>

lemma read_pointer_step: "pointer sb \<le> pointer (snd (SendBuffer_read sb len offset))"
  by (simp add: SendBuffer_read_def seek_forward_def pipe_read_def split: prod.splits)

lemma read_seq_lower: "\<forall>s \<in> set (read_seq sb calls). pointer sb \<le> pointer s"
proof (induction calls arbitrary: sb)
  case Nil
  then show ?case by simp
next
  case (Cons c calls)
  obtain len offset where c: "c = (len, offset)" by (cases c)
  have "pointer sb \<le> pointer (snd (SendBuffer_read sb len offset))"
    by (rule read_pointer_step)
  with Cons[of "snd (SendBuffer_read sb len offset)"] show ?case
    by (auto simp: c intro: order_trans)
qed

lemma read_seq_sorted: "sorted (map pointer (read_seq sb calls))"
proof (induction calls arbitrary: sb)
  case Nil
  then show ?case by simp
next
  case (Cons c calls)
  obtain len offset where c: "c = (len, offset)" by (cases c)
  have "\<forall>s \<in> set (read_seq (snd (SendBuffer_read sb len offset)) calls). pointer sb \<le> pointer s"
    using read_seq_lower[of "snd (SendBuffer_read sb len offset)" calls]
      read_pointer_step[of sb len offset]
    by (auto intro: order_trans)
  with Cons show ?case by (simp add: c)
qed

text \<open>
  C6. A \<open>read\<close> never moves the pointer of a session backwards, whatever the offset
  (also one below the pointer); hence along every sequence of reads the pointers of
  the successive sessions are in non-decreasing order.
\<close>

theorem read_pointer_never_decreases:
  "pointer sb \<le> pointer (snd (SendBuffer_read sb len offset))
   \<and> sorted (map pointer (read_seq sb calls))"
  using read_pointer_step read_seq_sorted by blast

subsection \<open>Handles\<close>

text \<open>
  C8. Whatever the table holds, after \<open>release\<close> of a handle a \<open>read\<close> on the same
  handle fails: the lookup of line 171 raises \<open>KeyError\<close> for the handle, which is the
  code's invalid-handle failure.
\<close>

theorem release_then_read_fails:
  "fst (FuseSnapshot_read (snd (FuseSnapshot_release fs path fh)) path' len offset fh)
     = Inl (KeyError fh)"
  by (simp add: FuseSnapshot_read_def FuseSnapshot_release_def split: option.splits)

subsection \<open>statfs\<close>

text \<open>
  C10. \<open>statfs\<close> returns the same dictionary for every path, but every entry of it is
  the default 0 of line 153: the block size and the block count of \<open>stv\<close> never reach
  the result.
\<close>

theorem statfs_reports_zero_everywhere:
  "FuseSnapshot_statfs fs path =
     [(''f_bavail'', SInt 0), (''f_bfree'', SInt 0), (''f_blocks'', SInt 0), (''f_bsize'', SInt 0),
      (''f_favail'', SInt 0), (''f_ffree'', SInt 0), (''f_files'', SInt 0), (''f_flag'', SInt 0),
      (''f_frsize'', SInt 0), (''f_namemax'', SInt 0)]"
  by (simp add: FuseSnapshot_statfs_def getattr_dict_def dict_attributes_def)

subsection \<open>readdir\<close>

lemma readdir_dot_entries_first:
  "take 2 (FuseSnapshot_readdir h fs path) = [''.'', ''..'']"
  by (simp add: FuseSnapshot_readdir_def Let_def)

text \<open>
  C9. \<open>readdir\<close> does yield \<open>.\<close> and \<open>..\<close> first, and then one entry for each
  catalog child whose parent is the resolved path; but line 141 removes from the
  child's full path every leading character that occurs in \<open>zpool + '/'\<close>, not the
  prefix \<open>zpool + '/'\<close>. In the pool \<open>tank\<close> the children \<open>tank/a\<close> and
  \<open>tank/apple\<close> are listed as the empty name and \<open>pple\<close>; their names relative to the
  root are \<open>a\<close> and \<open>apple\<close>.
\<close>

theorem readdir_strips_characters_not_prefix:
  "FuseSnapshot_readdir tank_ab_host (FuseSnapshot_init ''tank'') ''/'' = [''.'', ''..'', [], ''pple'']
   \<and> map (relative_name ''tank'') [''tank/a'', ''tank/apple''] = [''a'', ''apple'']"
  by (simp add: FuseSnapshot_readdir_def FuseSnapshot_init_def tank_ab_host_def path2zpath_def
      rstrip_def lstrip_def relative_name_def startswith_def)

subsection \<open>find\_closest\_snapshot\<close>

text \<open>
  What the function computes, for any listing. The candidates are the listed names
  other than the target that begin with the characters of the target's dataset name;
  the times are compared as strings. If a name is returned, it is a candidate created
  before the target, and no candidate created before the target is later; if
  \<open>None\<close> is returned, no candidate was created before the target.
\<close>

lemma split_first_prefix:
  "\<exists>w ws. split s sep = w # ws \<and> take (length w) s = w"
  by (induction s) (auto split: list.splits)

lemma startswith_dataset_of: "startswith s (dataset_of s)"
  using split_first_prefix[of s "CHR ''@''"]
  by (auto simp: startswith_def dataset_of_def)

lemma same_dataset_startswith: "same_dataset name snapshot \<Longrightarrow> startswith name (dataset_of snapshot)"
  using startswith_dataset_of[of name] by (simp add: same_dataset_def)

lemma pick_closest_invariant:
  "closest_in sc seen acc \<Longrightarrow> closest_in sc (seen @ cands) (pick_closest sc cands acc)"
proof (induction cands arbitrary: acc seen)
  case Nil
  then show ?case by simp
next
  case (Cons x cands)
  obtain snap ctime where x: "x = (snap, ctime)" by (cases x)
  obtain cs cc where acc: "acc = (cs, cc)" by (cases acc)
  let ?take = "ctime < sc \<and> (case cc of None \<Rightarrow> True | Some c \<Rightarrow> c = [] \<or> ctime > c)"
  show ?case
  proof (cases ?take)
    case True
    have "closest_in sc (seen @ [x]) (Some snap, Some ctime)"
      using True Cons.prems acc x
      by (cases cs; cases cc) (fastforce split: option.splits)+
    from Cons.IH[OF this] True show ?thesis by (auto simp: x acc)
  next
    case False
    have "closest_in sc (seen @ [x]) acc"
      using False Cons.prems acc x
      by (cases cs; cases cc) (fastforce split: option.splits)+
    from Cons.IH[OF this] False show ?thesis by (auto simp: x acc)
  qed
qed

lemma scan_lines_result:
  assumes "scan_lines snapshot dataset lines (ns, cs, sc) = Inr (ns', cs', sc')"
    and "length ns = length cs"
  shows "length ns' = length cs'
       \<and> set (zip ns' cs') = set (zip ns cs)
            \<union> {(n, c). \<exists>l \<in> set lines. split l TAB = [n, c] \<and> startswith n dataset \<and> n \<noteq> snapshot}
       \<and> (case sc' of
             None \<Rightarrow> sc = None \<and> (\<forall>l \<in> set lines. \<forall>c. split l TAB = [snapshot, c] \<longrightarrow> \<not> startswith snapshot dataset)
           | Some t \<Rightarrow> sc = Some t \<or> (\<exists>l \<in> set lines. split l TAB = [snapshot, t]))"
  using assms
proof (induction lines arbitrary: ns cs sc)
  case Nil
  then show ?case by (auto split: option.splits)
next
  case (Cons line lines)
  from Cons.prems(1) obtain name ctime where f: "split line TAB = [name, ctime]"
    by (auto split: list.splits)
  show ?case
  proof (cases "startswith name dataset")
    case False
    with Cons.prems f have "scan_lines snapshot dataset lines (ns, cs, sc) = Inr (ns', cs', sc')"
      by simp
    from Cons.IH[OF this Cons.prems(2)] False f show ?thesis
      by (auto split: option.splits)
  next
    case True
    show ?thesis
    proof (cases "name = snapshot")
      case eq: True
      with True Cons.prems f
      have "scan_lines snapshot dataset lines (ns, cs, Some ctime) = Inr (ns', cs', sc')"
        by simp
      from Cons.IH[OF this Cons.prems(2)] True eq f show ?thesis
        by (auto split: option.splits)
    next
      case ne: False
      with True Cons.prems f
      have "scan_lines snapshot dataset lines (ns @ [name], cs @ [ctime], sc) = Inr (ns', cs', sc')"
        by simp
      from Cons.IH[OF this] Cons.prems(2) True ne f show ?thesis
        by (auto split: option.splits)
    qed
  qed
qed


lemma find_closest_snapshot_cases:
  assumes "find_closest_snapshot h snapshot = Inr r"
  obtains lines ns cs sc where
    "zfs_call h list_snapshots_args = Inr lines"
    "scan_lines snapshot (dataset_of snapshot) lines ([], [], None) = Inr (ns, cs, sc)"
    "r = (case sc of
            None \<Rightarrow> PExc (RuntimeError (''snapshot '' @ snapshot @ '' not found''))
          | Some t \<Rightarrow> (case fst (pick_closest t (zip ns cs) (None, None)) of
                         None \<Rightarrow> PNone | Some s \<Rightarrow> PStr s))"
  using assms
  by (auto simp: find_closest_snapshot_def list_snapshots_args_def Let_def
      split: sum.splits option.splits prod.splits)

lemma find_closest_snapshot_closest:
  assumes "find_closest_snapshot h snapshot = Inr (PStr b)"
  shows "\<exists>lines tb ts.
           zfs_call h list_snapshots_args = Inr lines
         \<and> (\<exists>l \<in> set lines. split l TAB = [b, tb])
         \<and> (\<exists>l \<in> set lines. split l TAB = [snapshot, ts])
         \<and> startswith b (dataset_of snapshot) \<and> b \<noteq> snapshot \<and> tb < ts
         \<and> (\<forall>l \<in> set lines. \<forall>n c.
                split l TAB = [n, c] \<and> startswith n (dataset_of snapshot) \<and> n \<noteq> snapshot \<and> c < ts
                \<longrightarrow> c \<le> tb)"
proof -
  from assms obtain lines ns cs sc where
    z: "zfs_call h list_snapshots_args = Inr lines"
    and sl: "scan_lines snapshot (dataset_of snapshot) lines ([], [], None) = Inr (ns, cs, sc)"
    and r: "PStr b = (case sc of
            None \<Rightarrow> PExc (RuntimeError (''snapshot '' @ snapshot @ '' not found''))
          | Some t \<Rightarrow> (case fst (pick_closest t (zip ns cs) (None, None)) of
                         None \<Rightarrow> PNone | Some s \<Rightarrow> PStr s))"
    by (rule find_closest_snapshot_cases)
  from r obtain ts where sc: "sc = Some ts"
    and pk: "fst (pick_closest ts (zip ns cs) (None, None)) = Some b"
    by (auto split: option.splits)
  from scan_lines_result[OF sl] sc
  have cands: "set (zip ns cs) = {(n, c). \<exists>l \<in> set lines. split l TAB = [n, c]
                   \<and> startswith n (dataset_of snapshot) \<and> n \<noteq> snapshot}"
    and target: "\<exists>l \<in> set lines. split l TAB = [snapshot, ts]"
    by auto
  have "closest_in ts ([] @ zip ns cs) (pick_closest ts (zip ns cs) (None, None))"
    by (rule pick_closest_invariant) simp
  moreover obtain rs rc where pc: "pick_closest ts (zip ns cs) (None, None) = (rs, rc)"
    by (cases "pick_closest ts (zip ns cs) (None, None)")
  ultimately obtain tb where
    best: "(b, tb) \<in> set (zip ns cs)" "tb < ts" "\<forall>(n, c') \<in> set (zip ns cs). c' < ts \<longrightarrow> c' \<le> tb"
    using pk by (cases rs; cases rc) auto
  from best(1) cands have b: "\<exists>l \<in> set lines. split l TAB = [b, tb]"
    "startswith b (dataset_of snapshot)" "b \<noteq> snapshot"
    by auto
  have "\<forall>l \<in> set lines. \<forall>n c.
          split l TAB = [n, c] \<and> startswith n (dataset_of snapshot) \<and> n \<noteq> snapshot \<and> c < ts
          \<longrightarrow> c \<le> tb"
  proof (intro ballI allI impI)
    fix l n c
    assume l: "l \<in> set lines"
      and "split l TAB = [n, c] \<and> startswith n (dataset_of snapshot) \<and> n \<noteq> snapshot \<and> c < ts"
    then have "(n, c) \<in> set (zip ns cs)" "c < ts" using cands by auto
    with best(3) show "c \<le> tb" by auto
  qed
  with z b target best(2) show ?thesis by blast
qed


lemma find_closest_snapshot_none:
  assumes "find_closest_snapshot h snapshot = Inr PNone"
  shows "\<exists>lines ts.
           zfs_call h list_snapshots_args = Inr lines
         \<and> (\<exists>l \<in> set lines. split l TAB = [snapshot, ts])
         \<and> (\<forall>l \<in> set lines. \<forall>n c.
                split l TAB = [n, c] \<and> startswith n (dataset_of snapshot) \<and> n \<noteq> snapshot
                \<longrightarrow> \<not> c < ts)"
proof -
  from assms obtain lines ns cs sc where
    z: "zfs_call h list_snapshots_args = Inr lines"
    and sl: "scan_lines snapshot (dataset_of snapshot) lines ([], [], None) = Inr (ns, cs, sc)"
    and r: "PNone = (case sc of
            None \<Rightarrow> PExc (RuntimeError (''snapshot '' @ snapshot @ '' not found''))
          | Some t \<Rightarrow> (case fst (pick_closest t (zip ns cs) (None, None)) of
                         None \<Rightarrow> PNone | Some s \<Rightarrow> PStr s))"
    by (rule find_closest_snapshot_cases)
  from r obtain ts where sc: "sc = Some ts"
    and pk: "fst (pick_closest ts (zip ns cs) (None, None)) = None"
    by (auto split: option.splits)
  from scan_lines_result[OF sl] sc
  have cands: "set (zip ns cs) = {(n, c). \<exists>l \<in> set lines. split l TAB = [n, c]
                   \<and> startswith n (dataset_of snapshot) \<and> n \<noteq> snapshot}"
    and target: "\<exists>l \<in> set lines. split l TAB = [snapshot, ts]"
    by auto
  have "closest_in ts ([] @ zip ns cs) (pick_closest ts (zip ns cs) (None, None))"
    by (rule pick_closest_invariant) simp
  moreover obtain rs rc where pc: "pick_closest ts (zip ns cs) (None, None) = (rs, rc)"
    by (cases "pick_closest ts (zip ns cs) (None, None)")
  ultimately have none: "\<forall>(n, c) \<in> set (zip ns cs). \<not> c < ts"
    using pk by (cases rs; cases rc) auto
  have "\<forall>l \<in> set lines. \<forall>n c.
          split l TAB = [n, c] \<and> startswith n (dataset_of snapshot) \<and> n \<noteq> snapshot
          \<longrightarrow> \<not> c < ts"
  proof (intro ballI allI impI)
    fix l n c
    assume "l \<in> set lines"
      and "split l TAB = [n, c] \<and> startswith n (dataset_of snapshot) \<and> n \<noteq> snapshot"
    then have "(n, c) \<in> set (zip ns cs)" using cands by auto
    with none show "\<not> c < ts" by auto
  qed
  with z target show ?thesis by blast
qed

lemma find_closest_snapshot_absent:
  assumes "zfs_call h list_snapshots_args = Inr lines"
    and "scan_lines snapshot (dataset_of snapshot) lines ([], [], None) = Inr (ns, cs, sc)"
    and "\<forall>l \<in> set lines. \<forall>c. split l TAB \<noteq> [snapshot, c]"
  shows "find_closest_snapshot h snapshot
           = Inr (PExc (RuntimeError (''snapshot '' @ snapshot @ '' not found'')))"
proof -
  from scan_lines_result[OF assms(2)] assms(3) have "sc = None"
    by (cases sc) auto
  with assms(1,2) show ?thesis
    by (simp add: find_closest_snapshot_def list_snapshots_args_def)
qed

lemma scenario_closest_base:
  "find_closest_snapshot tank_host ''tank/a@s2'' = Inr (PStr ''tank/a@s1'')"
  "find_closest_snapshot tank_host ''tank/a@s1'' = Inr PNone"
  by (simp_all add: find_closest_snapshot_def zfs_call_def tank_host_def list_snapshots_args_def
      strip_def isspace_def startswith_def dataset_of_def)

text \<open>
  C2. For a target that the listing does not contain, \<open>find_closest_snapshot\<close> does
  not raise: line 42 returns the exception object. The object is true in
  \<open>if from_snap:\<close>, so \<open>get_size\<close> puts it into the argument vector as the base of an
  incremental send, and fails there with \<open>TypeError\<close>.
\<close>

theorem absent_target_returns_exception_object:
  "find_closest_snapshot tank_host ''tank/a@s9''
     = Inr (PExc (RuntimeError ''snapshot tank/a@s9 not found''))
   \<and> truthy (PExc (RuntimeError ''snapshot tank/a@s9 not found''))
   \<and> get_size tank_host ''tank/a@s9'' = Inl TypeError"
  by (simp add: get_size_def find_closest_snapshot_def zfs_call_def tank_host_def
      list_snapshots_args_def strip_def isspace_def startswith_def dataset_of_def)

text \<open>
  C1. With the snapshots \<open>tank/a@s1\<close> (100), \<open>tank/ab@s1\<close> (150) and \<open>tank/a@s2\<close>
  (200) in the listing, the base found for \<open>tank/a@s2\<close> is \<open>tank/ab@s1\<close>, a snapshot
  of another dataset: line 33 keeps every name that begins with the characters of the
  dataset's name.
\<close>

theorem closest_base_of_other_dataset:
  "find_closest_snapshot tank_ab_host ''tank/a@s2'' = Inr (PStr ''tank/ab@s1'')
   \<and> \<not> same_dataset ''tank/ab@s1'' ''tank/a@s2''"
  by (simp add: find_closest_snapshot_def zfs_call_def tank_ab_host_def list_snapshots_args_def
      strip_def isspace_def startswith_def dataset_of_def same_dataset_def)

subsection \<open>SendBuffer.read\<close>

lemma seek_forward_facts:
  assumes "seek_forward sb offset = (dropped, sb1)"
  shows "dropped = take (offset - pointer sb) (out_pipe (send_proc sb))"
    and "out_pipe (send_proc sb1) = drop (offset - pointer sb) (out_pipe (send_proc sb))"
    and "pointer sb1 = max offset (pointer sb)"
  using assms by (auto simp: seek_forward_def pipe_read_def split: if_splits)

lemma read_facts:
  assumes "SendBuffer_read sb len offset = (data, sb')"
  shows "data = take len (drop (offset - pointer sb) (out_pipe (send_proc sb)))"
    and "out_pipe (send_proc sb') = drop len (drop (offset - pointer sb) (out_pipe (send_proc sb)))"
    and "pointer sb' = max offset (pointer sb) + length data"
  using assms by (auto simp: SendBuffer_read_def seek_forward_def pipe_read_def split: if_splits)

lemma SendBuffer_init_fresh:
  assumes "SendBuffer_init h zpath = Inr sb"
  shows "pointer sb = 0" and "\<not> terminated (send_proc sb)"
  using assms by (auto simp: SendBuffer_init_def Let_def split: sum.splits)

text \<open>
  C3, as the claim states it, fails where the stream ends inside the gap: on a session
  at pointer 0 with three bytes left, a read at offset 5 drops three bytes, not
  \<open>5 - 0\<close>, and still sets the pointer to 5.
\<close>

theorem seek_past_end_drops_fewer_bytes:
  "pointer short_session < 5
   \<and> length (fst (seek_forward short_session 5)) = 3
   \<and> length (fst (seek_forward short_session 5)) \<noteq> 5 - pointer short_session
   \<and> pointer (snd (seek_forward short_session 5)) = 5"
  by (simp add: short_session_def seek_forward_def pipe_read_def)

text \<open>
  C3, amended. For a read with \<open>offset\<close> at or beyond the pointer: the bytes dropped
  first are the next \<open>offset - pointer\<close> bytes of the pipe, or all that is left of it
  when that is fewer, and the pointer becomes \<open>offset\<close>; then the next \<open>len\<close> bytes
  are returned, or all that is left when that is fewer (none at end-of-stream), and
  the pointer advances by the number of bytes returned.
\<close>

theorem read_seeks_then_reads:
  assumes "pointer sb \<le> offset"
    and "seek_forward sb offset = (dropped, sb1)"
    and "SendBuffer_read sb len offset = (data, sb')"
  shows "dropped = take (offset - pointer sb) (out_pipe (send_proc sb))
       \<and> length dropped = min (offset - pointer sb) (length (out_pipe (send_proc sb)))
       \<and> pointer sb1 = offset
       \<and> out_pipe (send_proc sb1) = drop (offset - pointer sb) (out_pipe (send_proc sb))
       \<and> data = take len (out_pipe (send_proc sb1))
       \<and> length data = min len (length (out_pipe (send_proc sb1)))
       \<and> out_pipe (send_proc sb') = drop len (out_pipe (send_proc sb1))
       \<and> pointer sb' = offset + length data"
  using assms seek_forward_facts[OF assms(2)] read_facts[OF assms(3)]
  by (simp add: max_def min_def)

theorem read_seeks_then_reads_witness:
  "pointer short_session \<le> 1
   \<and> seek_forward short_session 1
       = ([1], \<lparr>pointer = 1, from_snap = PNone,
                send_proc = \<lparr>out_pipe = [2, 3], terminated = False\<rparr>\<rparr>)
   \<and> SendBuffer_read short_session 1 1
       = ([2], \<lparr>pointer = 2, from_snap = PNone,
                send_proc = \<lparr>out_pipe = [3], terminated = False\<rparr>\<rparr>)
   \<and> length [1 :: byte] = min (1 - pointer short_session) (length (out_pipe (send_proc short_session)))
   \<and> [2 :: byte] = take 1 [2, 3]"
proof -
  have h1: "pointer short_session \<le> 1"
    by (simp add: short_session_def)
  have h2: "seek_forward short_session 1
       = ([1], \<lparr>pointer = 1, from_snap = PNone,
                send_proc = \<lparr>out_pipe = [2, 3], terminated = False\<rparr>\<rparr>)"
    by (simp add: short_session_def seek_forward_def pipe_read_def)
  have h3: "SendBuffer_read short_session 1 1
       = ([2], \<lparr>pointer = 2, from_snap = PNone,
                send_proc = \<lparr>out_pipe = [3], terminated = False\<rparr>\<rparr>)"
    by (simp add: short_session_def SendBuffer_read_def seek_forward_def pipe_read_def)
  note c = read_seeks_then_reads[OF h1 h2 h3]
  from c have c1: "length [1 :: byte]
      = min (1 - pointer short_session) (length (out_pipe (send_proc short_session)))"
    by blast
  from c have "[2 :: byte] = take 1 (out_pipe (send_proc \<lparr>pointer = 1, from_snap = PNone,
                send_proc = \<lparr>out_pipe = [2, 3], terminated = False\<rparr>\<rparr>))"
    by blast
  then have c2: "[2 :: byte] = take 1 [2, 3]" by simp
  show ?thesis using h1 h2 h3 c1 c2 by blast
qed

lemma one_read_at_zero: "fst (SendBuffer_read sb n 0) = take n (out_pipe (send_proc sb))"
  by (simp add: SendBuffer_read_def seek_forward_def pipe_read_def)

lemma two_reads:
  "fst (SendBuffer_read sb m 0) @ fst (SendBuffer_read (snd (SendBuffer_read sb m 0)) n m)
     = take (m + n) (out_pipe (send_proc sb))"
proof -
  obtain d1 sb1 where r1: "SendBuffer_read sb m 0 = (d1, sb1)"
    by (cases "SendBuffer_read sb m 0")
  obtain d2 sb2 where r2: "SendBuffer_read sb1 n m = (d2, sb2)"
    by (cases "SendBuffer_read sb1 n m")
  let ?s = "out_pipe (send_proc sb)"
  have d1: "d1 = take m ?s" and p1: "out_pipe (send_proc sb1) = drop m ?s"
    and q1: "pointer sb1 = pointer sb + length d1"
    using read_facts[OF r1] by simp_all
  have d2: "d2 = take n (drop (m - pointer sb1) (drop m ?s))"
    using read_facts(1)[OF r2] p1 by simp
  have "drop (m - pointer sb1) (drop m ?s) = drop m ?s"
  proof (cases "m \<le> length ?s")
    case True
    then have "length d1 = m" using d1 by simp
    then show ?thesis using q1 by simp
  next
    case False
    then show ?thesis by simp
  qed
  then have "d1 @ d2 = take m ?s @ take n (drop m ?s)" using d1 d2 by simp
  then show ?thesis using r1 r2 by (simp add: take_add)
qed

lemma length_long_stream: "length long_stream = 3000"
  by (simp only: long_stream_def length_map length_upt)

lemma open_tank_a_s2: "SendBuffer_init tank_host ''tank/a@s2'' = Inr long_session"
  by (simp add: SendBuffer_init_def find_closest_snapshot_def zfs_call_def tank_host_def
      list_snapshots_args_def strip_def isspace_def startswith_def dataset_of_def long_session_def)

text \<open>
  C5. Let \<open>sb\<close> and \<open>fresh\<close> be two sessions over the same stream, as two sessions
  opened on one snapshot are. The bytes returned from \<open>sb\<close> by \<open>read(1024, 0)\<close>
  followed by those returned by \<open>read(1024, 1024)\<close> are the bytes that one
  \<open>read(2048, 0)\<close> returns from \<open>fresh\<close>, namely the first 2048 bytes of the stream;
  they are 2048 bytes when the stream has that many.
\<close>

theorem two_sequential_reads_equal_one_read:
  assumes "out_pipe (send_proc sb) = stream"
    and "out_pipe (send_proc fresh) = stream"
  shows "fst (SendBuffer_read sb 1024 0) @ fst (SendBuffer_read (snd (SendBuffer_read sb 1024 0)) 1024 1024)
           = fst (SendBuffer_read fresh 2048 0)
       \<and> fst (SendBuffer_read fresh 2048 0) = take 2048 stream
       \<and> (2048 \<le> length stream \<longrightarrow> length (fst (SendBuffer_read fresh 2048 0)) = 2048)"
  using assms two_reads[of sb 1024 1024] one_read_at_zero[of fresh 2048] by simp

theorem two_sequential_reads_equal_one_read_witness:
  "SendBuffer_init tank_host ''tank/a@s2'' = Inr long_session
   \<and> out_pipe (send_proc long_session) = long_stream
   \<and> 2048 \<le> length long_stream
   \<and> length (fst (SendBuffer_read long_session 2048 0)) = 2048
   \<and> fst (SendBuffer_read long_session 1024 0)
       @ fst (SendBuffer_read (snd (SendBuffer_read long_session 1024 0)) 1024 1024)
     = fst (SendBuffer_read long_session 2048 0)"
proof -
  have p: "out_pipe (send_proc long_session) = long_stream"
    by (simp add: long_session_def)
  have h: "2048 \<le> length long_stream"
    by (simp add: length_long_stream)
  show ?thesis
    using p h open_tank_a_s2 two_sequential_reads_equal_one_read[OF p p] by blast
qed

subsection \<open>getattr\<close>

lemma mode_regular: "S_ISREG (S_IFREG OR S_IRUSR OR S_IXUSR)"
  by (simp add: S_ISREG_def S_IFREG_def S_IRUSR_def S_IXUSR_def S_IFMT_def)

lemma mode_directory: "S_ISDIR (S_IFDIR OR S_IRUSR OR S_IXUSR)"
  by (simp add: S_ISDIR_def S_IFDIR_def S_IRUSR_def S_IXUSR_def S_IFMT_def)

text \<open>
  C4. When the listing for the resolved path gives a line of three fields, the node
  exists; then \<open>getattr\<close> succeeds, provided the creation time parses and, for a
  snapshot, the size estimate \<open>est\<close> is obtained. For type \<open>snapshot\<close> it reports
  a regular-file mode and the size \<open>2 * est\<close>, for every other type a directory
  mode and size 0; the three timestamps are the creation time.
\<close>

theorem getattr_reports:
  assumes listing: "zfs_call h [''zfs'', ''list'', ''-H'', ''-p'', ''-o'', ''name,type,creation'',
                        path2zpath fs path] = Inr (line # rest)"
    and fields: "split line TAB = [name, ztype, ctime_s]"
    and time: "py_float h ctime_s = Some ctime"
    and estimate: "ztype = ''snapshot'' \<longrightarrow> get_size h (path2zpath fs path) = Inr est"
  shows "\<exists>st. FuseSnapshot_getattr h fs path = Inr st
          \<and> st_atime st = ctime \<and> st_mtime st = ctime \<and> st_ctime st = ctime
          \<and> (if ztype = ''snapshot''
              then S_ISREG (st_mode st) \<and> st_size st = 2 * est
              else S_ISDIR (st_mode st) \<and> st_size st = 0)"
proof (cases "ztype = ''snapshot''")
  case True
  with estimate have "get_size h (path2zpath fs path) = Inr est" by simp
  with True listing fields time show ?thesis
    by (simp add: FuseSnapshot_getattr_def mode_regular)
next
  case False
  with listing fields time show ?thesis
    by (simp add: FuseSnapshot_getattr_def mode_directory)
qed


theorem getattr_reports_witness:
  "zfs_call tank_host [''zfs'', ''list'', ''-H'', ''-p'', ''-o'', ''name,type,creation'',
       path2zpath (FuseSnapshot_init ''tank'') ''/a@s2'']
     = Inr [''tank/a@s2'' @ [TAB] @ ''snapshot'' @ [TAB] @ ''200'']
   \<and> split (''tank/a@s2'' @ [TAB] @ ''snapshot'' @ [TAB] @ ''200'') TAB
     = [''tank/a@s2'', ''snapshot'', ''200'']
   \<and> py_float tank_host ''200'' = Some 200
   \<and> get_size tank_host (path2zpath (FuseSnapshot_init ''tank'') ''/a@s2'') = Inr 1024
   \<and> (\<exists>st. FuseSnapshot_getattr tank_host (FuseSnapshot_init ''tank'') ''/a@s2'' = Inr st
          \<and> st_atime st = 200 \<and> st_mtime st = 200 \<and> st_ctime st = 200
          \<and> S_ISREG (st_mode st) \<and> st_size st = 2 * 1024)"
proof -
  have h1: "zfs_call tank_host [''zfs'', ''list'', ''-H'', ''-p'', ''-o'', ''name,type,creation'',
       path2zpath (FuseSnapshot_init ''tank'') ''/a@s2'']
     = Inr ((''tank/a@s2'' @ [TAB] @ ''snapshot'' @ [TAB] @ ''200'') # [])"
    by (simp add: zfs_call_def tank_host_def path2zpath_def FuseSnapshot_init_def rstrip_def
        list_snapshots_args_def strip_def isspace_def)
  have h2: "split (''tank/a@s2'' @ [TAB] @ ''snapshot'' @ [TAB] @ ''200'') TAB
     = [''tank/a@s2'', ''snapshot'', ''200'']"
    by simp
  have h3: "py_float tank_host ''200'' = Some 200"
    by (simp add: tank_host_def decimal_def is_digit_def)
  have h4: "get_size tank_host (path2zpath (FuseSnapshot_init ''tank'') ''/a@s2'') = Inr 1024"
    by (simp add: get_size_def find_closest_snapshot_def zfs_call_def tank_host_def
        path2zpath_def FuseSnapshot_init_def rstrip_def list_snapshots_args_def strip_def
        isspace_def startswith_def dataset_of_def decimal_def is_digit_def)
  then have h4': "''snapshot'' = ''snapshot''
      \<longrightarrow> get_size tank_host (path2zpath (FuseSnapshot_init ''tank'') ''/a@s2'') = Inr 1024"
    by blast
  from getattr_reports[OF h1 h2 h3 h4']
  have c: "\<exists>st. FuseSnapshot_getattr tank_host (FuseSnapshot_init ''tank'') ''/a@s2'' = Inr st
          \<and> st_atime st = 200 \<and> st_mtime st = 200 \<and> st_ctime st = 200
          \<and> S_ISREG (st_mode st) \<and> st_size st = 2 * 1024"
    by simp
  show ?thesis using h1 h2 h3 h4 c by blast
qed

text \<open>A container path, with or without a trailing separator: a directory of size 0.\<close>

lemma scenario_container_attributes:
  "FuseSnapshot_getattr tank_host (FuseSnapshot_init ''tank'') ''/a/''
     = Inr \<lparr>st_atime = 50, st_ctime = 50, st_gid = 0, st_mode = 16704, st_mtime = 50,
            st_nlink = 1, st_size = 0, st_uid = 0\<rparr>"
  "S_ISDIR 16704"
  by (simp_all add: FuseSnapshot_getattr_def zfs_call_def tank_host_def path2zpath_def
      FuseSnapshot_init_def rstrip_def list_snapshots_args_def strip_def isspace_def
      decimal_def is_digit_def S_IFDIR_def S_IRUSR_def S_IXUSR_def S_ISDIR_def S_IFMT_def)

subsection \<open>The table of open handles\<close>

lemma open_result:
  "FuseSnapshot_open h fs path flags =
     (case SendBuffer_init h (path2zpath fs path) of
        Inl e \<Rightarrow> (Inl e, fs\<lparr>max_buffer_id := max_buffer_id fs + 1\<rparr>)
      | Inr sb \<Rightarrow> (Inr (max_buffer_id fs + 1),
                   fs\<lparr>max_buffer_id := max_buffer_id fs + 1,
                      open_buffers := (open_buffers fs)(max_buffer_id fs + 1 \<mapsto> sb)\<rparr>))"
  by (simp add: FuseSnapshot_open_def Let_def split: sum.splits)

lemma open_table:
  "(case FuseSnapshot_open h fs path flags of
      (Inr b, fs') \<Rightarrow>
        b = max_buffer_id fs + 1
        \<and> (\<exists>sb. SendBuffer_init h (path2zpath fs path) = Inr sb
                \<and> open_buffers fs' = (open_buffers fs)(b \<mapsto> sb))
    | (Inl e, fs') \<Rightarrow> open_buffers fs' = open_buffers fs)"
  by (simp add: open_result split: sum.splits)

lemma read_dom:
  "dom (open_buffers (snd (FuseSnapshot_read fs path len offset fh))) = dom (open_buffers fs)"
  by (auto simp: FuseSnapshot_read_def split: option.splits prod.splits)

lemma release_dom:
  "dom (open_buffers (snd (FuseSnapshot_release fs path fh))) = dom (open_buffers fs) - {fh}"
  by (auto simp: FuseSnapshot_release_def Let_def split: option.splits)

lemma read_counter: "max_buffer_id (snd (FuseSnapshot_read fs path len offset fh)) = max_buffer_id fs"
  by (simp add: FuseSnapshot_read_def split: option.splits prod.splits)

lemma release_counter: "max_buffer_id (snd (FuseSnapshot_release fs path fh)) = max_buffer_id fs"
  by (simp add: FuseSnapshot_release_def Let_def split: option.splits)

lemma step_bounds:
  assumes "step h fs c = (hs, fs')"
  shows "max_buffer_id fs \<le> max_buffer_id fs'"
    and "\<forall>b \<in> set hs. max_buffer_id fs < b \<and> b \<le> max_buffer_id fs'"
    and "sorted_wrt (<) hs"
    and "dom (open_buffers fs') \<subseteq> dom (open_buffers fs) \<union> set hs"
proof -
  show "max_buffer_id fs \<le> max_buffer_id fs'"
    using assms by (cases c) (auto simp: open_result read_counter release_counter split: sum.splits)
  show "\<forall>b \<in> set hs. max_buffer_id fs < b \<and> b \<le> max_buffer_id fs'"
    using assms by (cases c) (auto simp: open_result split: sum.splits)
  show "sorted_wrt (<) hs"
    using assms by (cases c) (auto simp: open_result split: sum.splits)
  show "dom (open_buffers fs') \<subseteq> dom (open_buffers fs) \<union> set hs"
  proof (cases c)
    case (Open path flags)
    with assms show ?thesis by (auto simp: open_result split: sum.splits)
  next
    case (Read path len offset fh)
    with assms have "fs' = snd (FuseSnapshot_read fs path len offset fh)" by simp
    then show ?thesis using read_dom[of fs path len offset fh] by simp
  next
    case (Release path fh)
    with assms have "fs' = snd (FuseSnapshot_release fs path fh)" by simp
    then show ?thesis using release_dom[of fs path fh] by auto
  qed
qed

lemma serve_bounds:
  assumes "serve h fs cs = (hs, fs')"
  shows "max_buffer_id fs \<le> max_buffer_id fs'
       \<and> (\<forall>b \<in> set hs. max_buffer_id fs < b \<and> b \<le> max_buffer_id fs')
       \<and> sorted_wrt (<) hs
       \<and> dom (open_buffers fs') \<subseteq> dom (open_buffers fs) \<union> set hs"
  using assms
proof (induction cs arbitrary: fs hs fs')
  case Nil
  then show ?case by simp
next
  case (Cons c cs)
  obtain h1 fs1 where s1: "step h fs c = (h1, fs1)" by (cases "step h fs c")
  obtain h2 fs2 where s2: "serve h fs1 cs = (h2, fs2)" by (cases "serve h fs1 cs")
  from Cons.prems s1 s2 have eq: "hs = h1 @ h2" "fs' = fs2" by simp_all
  note a = step_bounds[OF s1]
  note b = Cons.IH[OF s2]
  have "sorted_wrt (<) (h1 @ h2)"
    using a(2,3) b by (fastforce simp: sorted_wrt_append)
  moreover have "max_buffer_id fs \<le> max_buffer_id fs2" using a(1) b by linarith
  moreover have "\<forall>b \<in> set (h1 @ h2). max_buffer_id fs < b \<and> b \<le> max_buffer_id fs2"
    using a(1,2) b by fastforce
  moreover have "dom (open_buffers fs2) \<subseteq> dom (open_buffers fs) \<union> set (h1 @ h2)"
  proof -
    have "dom (open_buffers fs2) \<subseteq> dom (open_buffers fs1) \<union> set h2" using b by blast
    with a(4) show ?thesis unfolding set_append by blast
  qed
  ultimately show ?case using eq by simp
qed

lemma sorted_wrt_less_distinct: "sorted_wrt (<) (xs :: int list) \<Longrightarrow> distinct xs"
  by (induction xs) auto

text \<open>
  C7. Along every sequence of calls on a freshly mounted filesystem the handles
  returned by \<open>open\<close> are strictly increasing, hence pairwise distinct and never
  reused, and the table only holds handles that \<open>open\<close> returned. A successful
  \<open>open\<close> returns the counter plus one and adds the new session to the table under
  that handle, a failed one leaves the table as it was; \<open>read\<close> keeps the set of
  handles in the table; \<open>release\<close> removes the released handle and no other.
\<close>

theorem handles_increase_and_table_discipline:
  "sorted_wrt (<) (fst (serve h (FuseSnapshot_init zp) calls))
   \<and> distinct (fst (serve h (FuseSnapshot_init zp) calls))
   \<and> dom (open_buffers (snd (serve h (FuseSnapshot_init zp) calls)))
        \<subseteq> set (fst (serve h (FuseSnapshot_init zp) calls))
   \<and> (case FuseSnapshot_open h fs path flags of
         (Inr b, fs') \<Rightarrow>
           b = max_buffer_id fs + 1
           \<and> (\<exists>sb. SendBuffer_init h (path2zpath fs path) = Inr sb
                   \<and> open_buffers fs' = (open_buffers fs)(b \<mapsto> sb))
       | (Inl e, fs') \<Rightarrow> open_buffers fs' = open_buffers fs)
   \<and> dom (open_buffers (snd (FuseSnapshot_read fs path len offset fh))) = dom (open_buffers fs)
   \<and> dom (open_buffers (snd (FuseSnapshot_release fs path fh))) = dom (open_buffers fs) - {fh}"
proof -
  obtain hs fs' where s: "serve h (FuseSnapshot_init zp) calls = (hs, fs')"
    by (cases "serve h (FuseSnapshot_init zp) calls")
  note b = serve_bounds[OF s]
  have "dom (open_buffers fs') \<subseteq> set hs"
    using b by (simp add: FuseSnapshot_init_def)
  moreover have "sorted_wrt (<) hs" using b by blast
  moreover then have "distinct hs" by (rule sorted_wrt_less_distinct)
  ultimately show ?thesis
    using s open_table read_dom release_dom by simp
qed


theorem handles_increase_and_table_discipline_witness:
  "fst (serve tank_host (FuseSnapshot_init ''tank'')
          [Open ''/a@s2'' 0, Release ''/a@s2'' 1, Open ''/a@s9'' 0, Open ''/a@s2'' 0]) = [1, 3]
   \<and> sorted_wrt (<) (fst (serve tank_host (FuseSnapshot_init ''tank'')
          [Open ''/a@s2'' 0, Release ''/a@s2'' 1, Open ''/a@s9'' 0, Open ''/a@s2'' 0]))
   \<and> dom (open_buffers (snd (serve tank_host (FuseSnapshot_init ''tank'')
          [Open ''/a@s2'' 0, Release ''/a@s2'' 1, Open ''/a@s9'' 0, Open ''/a@s2'' 0]))) \<subseteq> {1, 3}"
proof -
  have e: "fst (serve tank_host (FuseSnapshot_init ''tank'')
          [Open ''/a@s2'' 0, Release ''/a@s2'' 1, Open ''/a@s9'' 0, Open ''/a@s2'' 0]) = [1, 3]"
    by (simp add: FuseSnapshot_open_def FuseSnapshot_release_def SendBuffer_init_def
        FuseSnapshot_init_def path2zpath_def rstrip_def find_closest_snapshot_def zfs_call_def
        tank_host_def list_snapshots_args_def strip_def isspace_def startswith_def dataset_of_def)
  from handles_increase_and_table_discipline[of tank_host "''tank''"
      "[Open ''/a@s2'' 0, Release ''/a@s2'' 1, Open ''/a@s9'' 0, Open ''/a@s2'' 0]"]
  have "sorted_wrt (<) (fst (serve tank_host (FuseSnapshot_init ''tank'')
          [Open ''/a@s2'' 0, Release ''/a@s2'' 1, Open ''/a@s9'' 0, Open ''/a@s2'' 0]))"
    and "dom (open_buffers (snd (serve tank_host (FuseSnapshot_init ''tank'')
          [Open ''/a@s2'' 0, Release ''/a@s2'' 1, Open ''/a@s9'' 0, Open ''/a@s2'' 0])))
        \<subseteq> set (fst (serve tank_host (FuseSnapshot_init ''tank'')
          [Open ''/a@s2'' 0, Release ''/a@s2'' 1, Open ''/a@s9'' 0, Open ''/a@s2'' 0]))"
    by blast+
  then show ?thesis using e by simp
qed

end
